theory Spec2Isabelle
  imports Complex_Main
begin

section \<open>Data model\<close>

text \<open>
  The pydantic models of \<^verbatim>\<open>store/main.py\<close>. The edge and the hub import
  classes of the same names from \<^verbatim>\<open>app.entities\<close>; they carry the same
  fields. A Python \<^verbatim>\<open>float\<close> (and an \<^verbatim>\<open>int\<close> stored in a numeric
  field) is read as the real number it denotes: the code only compares these values with
  integer constants and copies them, and Python compares an int with a float by value.
  A \<^verbatim>\<open>datetime\<close> is represented by its ISO-8601 rendering.
\<close>

datatype datetime = Datetime (isoformat: string)

record AccelerometerData =
  x :: real
  y :: real
  z :: real

record GpsData =
  latitude :: real
  longitude :: real

record AgentData =
  user_id :: int
  accelerometer :: AccelerometerData
  gps :: GpsData
  timestamp :: datetime

record ProcessedAgentData =
  road_state :: string
  agent_data :: AgentData

section \<open>Edge: classification of the road surface\<close>

text \<open>
  \<^verbatim>\<open>pit_intervals\<close> is a dictionary of three named intervals, each a dictionary
  with the keys \<^verbatim>\<open>"start"\<close> and \<^verbatim>\<open>"end"\<close>. The keys are literals at every
  use, so the outer keys are a datatype and an interval is a record (\<open>stop\<close> stands for
  the key \<^verbatim>\<open>"end"\<close>).
\<close>

datatype pit_key = Normal | Small_pits_less | Small_pits_greater

record interval =
  start :: int
  stop :: int

fun pit_intervals :: "pit_key \<Rightarrow> interval" where
  "pit_intervals Normal = \<lparr>start = 14000, stop = 18000\<rparr>"
| "pit_intervals Small_pits_less = \<lparr>start = 12000, stop = 14000\<rparr>"
| "pit_intervals Small_pits_greater = \<lparr>start = 18000, stop = 20000\<rparr>"

definition process_agent_data :: "AgentData \<Rightarrow> ProcessedAgentData" where
  "process_agent_data agent =
     (let z_acceleration = z (accelerometer agent);
          state =
            (if real_of_int (start (pit_intervals Normal)) < z_acceleration
                \<and> z_acceleration \<le> real_of_int (stop (pit_intervals Normal))
             then ''normal''
             else if real_of_int (start (pit_intervals Small_pits_less)) < z_acceleration
                       \<and> z_acceleration < real_of_int (stop (pit_intervals Small_pits_less))
                     \<or> real_of_int (start (pit_intervals Small_pits_greater)) < z_acceleration
                       \<and> z_acceleration < real_of_int (stop (pit_intervals Small_pits_greater))
             then ''small pits''
             else ''large pits'')
      in \<lparr>road_state = state, agent_data = agent\<rparr>)"

text \<open>An agent record with a given vertical acceleration, for stating boundary cases.\<close>

definition with_z :: "AgentData \<Rightarrow> real \<Rightarrow> AgentData" where
  "with_z agent v = agent\<lparr>accelerometer := (accelerometer agent)\<lparr>z := v\<rparr>\<rparr>"

section \<open>Hub: the buffering adapter of the store API\<close>

text \<open>
  The body of a request is a list of dictionaries. A dictionary is a list of key-value
  pairs in the order pydantic emits them.
\<close>

datatype json = JInt int | JNumber real | JString string | JObject "(string \<times> json) list"

text \<open>
  \<^verbatim>\<open>processed_agent_data_list_to_list_of_dict\<close> runs two loops: the first dumps
  every model into a dictionary, the second replaces \<^verbatim>\<open>["agent_data"]["timestamp"]\<close>
  of every dictionary by its ISO string. \<open>to_dict\<close> is the dictionary of one record
  after both loops.
\<close>

definition to_dict :: "ProcessedAgentData \<Rightarrow> json" where
  "to_dict d =
     JObject
      [(''road_state'', JString (road_state d)),
       (''agent_data'', JObject
          [(''user_id'', JInt (user_id (agent_data d))),
           (''accelerometer'', JObject
              [(''x'', JNumber (x (accelerometer (agent_data d)))),
               (''y'', JNumber (y (accelerometer (agent_data d)))),
               (''z'', JNumber (z (accelerometer (agent_data d))))]),
           (''gps'', JObject
              [(''latitude'', JNumber (latitude (gps (agent_data d)))),
               (''longitude'', JNumber (longitude (gps (agent_data d))))]),
           (''timestamp'', JString (isoformat (timestamp (agent_data d))))])]"

definition processed_agent_data_list_to_list_of_dict :: "ProcessedAgentData list \<Rightarrow> json list" where
  "processed_agent_data_list_to_list_of_dict data_list = map to_dict data_list"

text \<open>
  \<^verbatim>\<open>requests.post\<close> is the network. It either returns a response, of which the code
  reads \<^verbatim>\<open>ok\<close> and \<^verbatim>\<open>status_code\<close>, or raises. The network is a parameter of
  the model; every request made is appended to a log, so that delivery attempts can be
  counted.
\<close>

datatype post_result = Response (ok: bool) (status_code: int) | RequestException

type_synonym http_log = "(string \<times> json list) list"

record StoreApiAdapter =
  api_base_url :: string
  buffer_size :: int
  buffer :: "ProcessedAgentData list"

definition init_StoreApiAdapter :: "string \<Rightarrow> int \<Rightarrow> StoreApiAdapter" where
  "init_StoreApiAdapter url n = \<lparr>api_base_url = url, buffer_size = n, buffer = []\<rparr>"

definition endpoint_url :: "StoreApiAdapter \<Rightarrow> string" where
  "endpoint_url self = api_base_url self @ ''/processed_agent_data/''"

text \<open>
  \<^verbatim>\<open>send_data\<close> catches every exception of the conversion and of the request and
  returns \<^verbatim>\<open>False\<close> for it, so it never raises.
\<close>

definition send_data ::
  "(string \<Rightarrow> json list \<Rightarrow> post_result) \<Rightarrow> StoreApiAdapter \<Rightarrow> ProcessedAgentData list
     \<Rightarrow> http_log \<Rightarrow> bool \<times> http_log" where
  "send_data post self data reqs =
     (let url = endpoint_url self;
          json_data = processed_agent_data_list_to_list_of_dict data
      in case post url json_data of
           Response response_ok code \<Rightarrow> (if response_ok then True else False, reqs @ [(url, json_data)])
         | RequestException \<Rightarrow> (False, reqs @ [(url, json_data)]))"

text \<open>
  \<^verbatim>\<open>save_data\<close> extends the buffer by the batch; when the buffer has reached
  \<^verbatim>\<open>buffer_size\<close> it sends the whole buffer, clears it whatever the outcome, and
  returns the outcome. The handler around its body is never entered: extending a list
  by a list does not raise and \<open>send_data\<close> does not raise. The result is the returned
  flag, the adapter after the call and the request log.
\<close>

definition save_data ::
  "(string \<Rightarrow> json list \<Rightarrow> post_result) \<Rightarrow> StoreApiAdapter \<Rightarrow> ProcessedAgentData list
     \<Rightarrow> http_log \<Rightarrow> bool \<times> StoreApiAdapter \<times> http_log" where
  "save_data post self processed_agent_data_batch reqs =
     (let self1 = self\<lparr>buffer := buffer self @ processed_agent_data_batch\<rparr>
      in if buffer_size self1 \<le> int (length (buffer self1))
         then (let (success, reqs1) = send_data post self1 (buffer self1) reqs
               in (success, self1\<lparr>buffer := []\<rparr>, reqs1))
         else (True, self1, reqs))"

text \<open>A delivery attempt fails when the request raises or the response is not ok.\<close>

fun delivery_fails :: "post_result \<Rightarrow> bool" where
  "delivery_fails (Response response_ok code) = (\<not> response_ok)"
| "delivery_fails RequestException = True"

text \<open>Records enqueued one call after the other, as the hub does for each message.\<close>

fun save_each ::
  "(string \<Rightarrow> json list \<Rightarrow> post_result) \<Rightarrow> StoreApiAdapter \<Rightarrow> ProcessedAgentData list
     \<Rightarrow> http_log \<Rightarrow> StoreApiAdapter \<times> http_log" where
  "save_each post self [] reqs = (self, reqs)"
| "save_each post self (r # rs) reqs =
     (case save_data post self [r] reqs of (success, self1, reqs1) \<Rightarrow> save_each post self1 rs reqs1)"

text \<open>
  The full groups of \<open>t\<close> consecutive elements of a list, in order; a shorter rest
  is left out.
\<close>

fun full_chunks :: "nat \<Rightarrow> 'a list \<Rightarrow> 'a list list" where
  "full_chunks t rs =
     (if t = 0 \<or> length rs < t then [] else take t rs # full_chunks t (drop t rs))"

declare full_chunks.simps [simp del]

text \<open>A store that cannot be reached, and sample records.\<close>

definition unreachable_store :: "string \<Rightarrow> json list \<Rightarrow> post_result" where
  "unreachable_store url body = RequestException"

definition accepting_store :: "string \<Rightarrow> json list \<Rightarrow> post_result" where
  "accepting_store url body = Response True 200"

definition rejecting_store :: "string \<Rightarrow> json list \<Rightarrow> post_result" where
  "rejecting_store url body = Response False 500"

definition sample_agent :: "int \<Rightarrow> real \<Rightarrow> AgentData" where
  "sample_agent uid v =
     \<lparr>user_id = uid, accelerometer = \<lparr>x = 0, y = 0, z = v\<rparr>,
      gps = \<lparr>latitude = 50, longitude = 30\<rparr>, timestamp = Datetime ''2024-01-01T00:00:00+00:00''\<rparr>"

definition sample_record :: "int \<Rightarrow> real \<Rightarrow> ProcessedAgentData" where
  "sample_record uid v = process_agent_data (sample_agent uid v)"

section \<open>Store: subscriptions\<close>

text \<open>
  The exceptions the store code can meet: a failure of the database driver on
  \<^verbatim>\<open>execute\<close> or \<^verbatim>\<open>commit\<close>, a \<^verbatim>\<open>TypeError\<close> of \<^verbatim>\<open>json.dumps\<close>, a
  failed \<^verbatim>\<open>send_json\<close> on a closed connection, a \<^verbatim>\<open>KeyError\<close> of a dictionary
  or set, and the \<^verbatim>\<open>HTTPException\<close> the handlers raise themselves.
\<close>

datatype error = StorageError | TypeError | SendError | KeyError | HTTPException int

text \<open>
  A \<^verbatim>\<open>WebSocket\<close> object is identified by a number. The global
  \<^verbatim>\<open>subscriptions\<close> maps a user id to a set of connections and starts empty.
\<close>

type_synonym WebSocket = nat

type_synonym subscriptions = "int \<rightharpoonup> WebSocket set"

definition initial_subscriptions :: subscriptions where
  "initial_subscriptions = Map.empty"

text \<open>The connections registered for a user; none when the user has no entry.\<close>

definition registered :: "subscriptions \<Rightarrow> int \<Rightarrow> WebSocket set" where
  "registered subs uid = (case subs uid of None \<Rightarrow> {} | Some S \<Rightarrow> S)"

text \<open>
  \<^verbatim>\<open>websocket_endpoint\<close>, after accepting the connection: create the user's set if
  it is missing, then add the connection to it.
\<close>

definition websocket_endpoint_subscribe ::
  "subscriptions \<Rightarrow> WebSocket \<Rightarrow> int \<Rightarrow> error + subscriptions" where
  "websocket_endpoint_subscribe subs websocket uid =
     (let subs1 = (if subs uid = None then subs(uid \<mapsto> {}) else subs)
      in case subs1 uid of
           None \<Rightarrow> Inl KeyError
         | Some S \<Rightarrow> Inr (subs1(uid \<mapsto> insert websocket S)))"

text \<open>
  \<^verbatim>\<open>websocket_endpoint\<close>, in the handler of \<^verbatim>\<open>WebSocketDisconnect\<close>:
  \<^verbatim>\<open>subscriptions[user_id].remove(websocket)\<close>. Both the dictionary lookup and
  \<^verbatim>\<open>set.remove\<close> raise \<^verbatim>\<open>KeyError\<close> when the key or the element is missing.
\<close>

definition websocket_endpoint_unsubscribe ::
  "subscriptions \<Rightarrow> WebSocket \<Rightarrow> int \<Rightarrow> error + subscriptions" where
  "websocket_endpoint_unsubscribe subs websocket uid =
     (case subs uid of
        None \<Rightarrow> Inl KeyError
      | Some S \<Rightarrow> if websocket \<in> S then Inr (subs(uid \<mapsto> S - {websocket})) else Inl KeyError)"

text \<open>
  A message on the wire: the connection and the text handed to \<^verbatim>\<open>send_json\<close>.
  The loop of \<^verbatim>\<open>send_data_to_subscribers\<close> visits the set in the order Python
  iterates it; for each connection it evaluates \<^verbatim>\<open>json.dumps(data)\<close>, which raises
  \<^verbatim>\<open>TypeError\<close> on a value it cannot serialise, and sends the result, which raises
  when the connection is gone. Nothing catches either exception, so the first one ends
  the loop. The result is the outcome and the messages sent before it.
\<close>

type_synonym message = "WebSocket \<times> string"

fun send_loop ::
  "('d \<Rightarrow> string option) \<Rightarrow> (WebSocket \<Rightarrow> bool) \<Rightarrow> 'd \<Rightarrow> WebSocket list
     \<Rightarrow> (error + unit) \<times> message list" where
  "send_loop json_dumps send_raises data [] = (Inr (), [])"
| "send_loop json_dumps send_raises data (websocket # rest) =
     (case json_dumps data of
        None \<Rightarrow> (Inl TypeError, [])
      | Some payload \<Rightarrow>
          if send_raises websocket then (Inl SendError, [])
          else (case send_loop json_dumps send_raises data rest of
                  (outcome, msgs) \<Rightarrow> (outcome, (websocket, payload) # msgs)))"

text \<open>
  \<^verbatim>\<open>send_data_to_subscribers\<close>. The iteration order of the set, the serialiser and
  the connections that fail are parameters. The function reads the global
  \<^verbatim>\<open>subscriptions\<close> and never assigns to it; the registry is returned with the
  outcome to make that explicit.
\<close>

definition send_data_to_subscribers ::
  "(WebSocket set \<Rightarrow> WebSocket list) \<Rightarrow> ('d \<Rightarrow> string option) \<Rightarrow> (WebSocket \<Rightarrow> bool)
     \<Rightarrow> subscriptions \<Rightarrow> int \<Rightarrow> 'd \<Rightarrow> (error + unit) \<times> subscriptions \<times> message list" where
  "send_data_to_subscribers set_order json_dumps send_raises subs uid data =
     (case subs uid of
        None \<Rightarrow> (Inr (), subs, [])
      | Some S \<Rightarrow>
          (case send_loop json_dumps send_raises data (set_order S) of
             (outcome, msgs) \<Rightarrow> (outcome, subs, msgs)))"

text \<open>
  What is known of Python's iteration over a set: every element is visited once. Sets of
  connections are finite.
\<close>

definition iteration_order :: "(WebSocket set \<Rightarrow> WebSocket list) \<Rightarrow> bool" where
  "iteration_order set_order = (\<forall>S. finite S \<longrightarrow> set (set_order S) = S \<and> distinct (set_order S))"

definition finite_registry :: "subscriptions \<Rightarrow> bool" where
  "finite_registry subs = (\<forall>uid S. subs uid = Some S \<longrightarrow> finite S)"

text \<open>The texts a connection received among some messages, in order.\<close>

definition delivered_to :: "WebSocket \<Rightarrow> message list \<Rightarrow> string list" where
  "delivered_to websocket msgs = map snd (filter (\<lambda>m. fst m = websocket) msgs)"

text \<open>One possible iteration order, and a serialiser for text, for concrete runs.\<close>

definition ascending :: "WebSocket set \<Rightarrow> WebSocket list" where
  "ascending S = sorted_list_of_set S"

definition dumps_text :: "string \<Rightarrow> string option" where
  "dumps_text data = Some (CHR 0x22 # data @ [CHR 0x22])"

definition only_fails :: "WebSocket \<Rightarrow> WebSocket \<Rightarrow> bool" where
  "only_fails broken websocket = (websocket = broken)"

definition never_fails :: "WebSocket \<Rightarrow> bool" where
  "never_fails websocket = False"

section \<open>Store: the record store and its endpoints\<close>

text \<open>
  A row of the table \<^verbatim>\<open>processed_agent_data\<close>; the field \<open>c_id\<close> is the column
  \<^verbatim>\<open>processed_agent_data.c.id\<close>, and so on.
\<close>

record ProcessedAgentDataInDB =
  c_id :: int
  c_road_state :: string
  c_user_id :: int
  c_x :: real
  c_y :: real
  c_z :: real
  c_latitude :: real
  c_longitude :: real
  c_timestamp :: datetime

text \<open>
  The database holds the committed rows and the sequence that numbers new rows. A
  session sees the committed rows and its own uncommitted changes; \<^verbatim>\<open>commit\<close>
  publishes them, \<^verbatim>\<open>rollback\<close> drops them. Other sessions running at the same time
  are not modelled.
\<close>

record Database =
  table :: "ProcessedAgentDataInDB list"
  next_id :: int

record Session =
  working :: "ProcessedAgentDataInDB list"

text \<open>
  What \<^verbatim>\<open>execute\<close> returns for a statement that changes rows. Python's
  \<^verbatim>\<open>not result\<close> asks for the truth value of the object; the class defines neither
  \<^verbatim>\<open>__bool__\<close> nor \<^verbatim>\<open>__len__\<close>, so every such object is true.
\<close>

datatype CursorResult = CursorResult (rowcount: nat) (inserted_primary_key: "int option")

definition truthy :: "CursorResult \<Rightarrow> bool" where
  "truthy result = True"

definition SessionLocal :: "Database \<Rightarrow> Session" where
  "SessionLocal db = \<lparr>working = table db\<rparr>"

definition commit :: "Database \<Rightarrow> Session \<Rightarrow> Database" where
  "commit db session = db\<lparr>table := working session\<rparr>"

definition rollback :: "Database \<Rightarrow> Session \<Rightarrow> Session" where
  "rollback db session = session\<lparr>working := table db\<rparr>"

text \<open>The column values both the insert and the update statement take from a record.\<close>

definition values_of :: "int \<Rightarrow> ProcessedAgentData \<Rightarrow> ProcessedAgentDataInDB" where
  "values_of n item =
     \<lparr>c_id = n,
      c_road_state = road_state item,
      c_user_id = user_id (agent_data item),
      c_x = x (accelerometer (agent_data item)),
      c_y = y (accelerometer (agent_data item)),
      c_z = z (accelerometer (agent_data item)),
      c_latitude = latitude (gps (agent_data item)),
      c_longitude = longitude (gps (agent_data item)),
      c_timestamp = timestamp (agent_data item)\<rparr>"

definition execute_insert ::
  "Database \<Rightarrow> Session \<Rightarrow> ProcessedAgentData \<Rightarrow> CursorResult \<times> Database \<times> Session" where
  "execute_insert db session item =
     (CursorResult 1 (Some (next_id db)),
      db\<lparr>next_id := next_id db + 1\<rparr>,
      session\<lparr>working := working session @ [values_of (next_id db) item]\<rparr>)"

definition execute_select :: "Session \<Rightarrow> int \<Rightarrow> ProcessedAgentDataInDB list" where
  "execute_select session n = filter (\<lambda>r. c_id r = n) (working session)"

definition execute_update :: "Session \<Rightarrow> int \<Rightarrow> ProcessedAgentData \<Rightarrow> CursorResult \<times> Session" where
  "execute_update session n item =
     (CursorResult (length (execute_select session n)) None,
      session\<lparr>working := map (\<lambda>r. if c_id r = n then values_of (c_id r) item else r) (working session)\<rparr>)"

definition execute_delete :: "Session \<Rightarrow> int \<Rightarrow> CursorResult \<times> Session" where
  "execute_delete session n =
     (CursorResult (length (execute_select session n)) None,
      session\<lparr>working := filter (\<lambda>r. c_id r \<noteq> n) (working session)\<rparr>)"

fun first :: "'a list \<Rightarrow> 'a option" where
  "first [] = None"
| "first (r # rest) = Some r"

text \<open>
  What is outside the code during one call of \<^verbatim>\<open>create_processed_agent_data\<close>:
  whether \<^verbatim>\<open>execute\<close> or \<^verbatim>\<open>commit\<close> raises for the record at a position of the
  batch, what \<^verbatim>\<open>json.dumps\<close> makes of the object it is given, whether sending the
  notification of the record at a position to a connection raises, and the order in which
  a set is iterated.
\<close>

record environment =
  execute_fails :: "nat \<Rightarrow> bool"
  commit_fails :: "nat \<Rightarrow> bool"
  dumps :: "CursorResult \<Rightarrow> string option"
  send_fails :: "nat \<Rightarrow> WebSocket \<Rightarrow> bool"
  iter_order :: "WebSocket set \<Rightarrow> WebSocket list"

text \<open>
  The loop of \<^verbatim>\<open>create_processed_agent_data\<close> from position \<open>i\<close> of the batch.
  For each record: execute the insert, commit, then notify the subscribers of the
  record's user with the result of \<^verbatim>\<open>execute\<close>. Any exception of the three steps is
  caught, the session is rolled back and the exception is raised again, which ends the
  loop. The result is the outcome, the database, the session and the messages sent.
  The registry is only read (see \<open>send_data_to_subscribers\<close>).
\<close>

fun create_loop ::
  "environment \<Rightarrow> subscriptions \<Rightarrow> nat \<Rightarrow> Database \<Rightarrow> Session \<Rightarrow> ProcessedAgentData list
     \<Rightarrow> (error + unit) \<times> Database \<times> Session \<times> message list" where
  "create_loop env subs i db session [] = (Inr (), db, session, [])"
| "create_loop env subs i db session (item # rest) =
     (if execute_fails env i then (Inl StorageError, db, rollback db session, [])
      else (case execute_insert db session item of (result, db1, session1) \<Rightarrow>
        (if commit_fails env i then (Inl StorageError, db1, rollback db1 session1, [])
         else (let db2 = commit db1 session1
               in (case send_data_to_subscribers (iter_order env) (dumps env) (send_fails env i)
                          subs (user_id (agent_data item)) result of
                     (Inl e, subs1, msgs) \<Rightarrow> (Inl e, db2, rollback db2 session1, msgs)
                   | (Inr u, subs1, msgs) \<Rightarrow>
                       (case create_loop env subs (Suc i) db2 session1 rest of
                          (outcome, db3, session3, msgs3) \<Rightarrow>
                            (outcome, db3, session3, msgs @ msgs3)))))))"

definition create_processed_agent_data ::
  "environment \<Rightarrow> subscriptions \<Rightarrow> Database \<Rightarrow> ProcessedAgentData list
     \<Rightarrow> (error + unit) \<times> Database \<times> message list" where
  "create_processed_agent_data env subs db data =
     (case create_loop env subs 0 db (SessionLocal db) data of
        (outcome, db1, session1, msgs) \<Rightarrow> (outcome, db1, msgs))"

text \<open>
  \<^verbatim>\<open>read_processed_agent_data\<close>: the first row with the identifier, or the 404
  exception when there is none (a row has nine columns, so it is true).
\<close>

definition read_processed_agent_data :: "Database \<Rightarrow> int \<Rightarrow> error + ProcessedAgentDataInDB" where
  "read_processed_agent_data db processed_agent_data_id =
     (let session = SessionLocal db;
          result = first (execute_select session processed_agent_data_id)
      in case result of
           None \<Rightarrow> Inl (HTTPException 404)
         | Some row \<Rightarrow> Inr row)"

text \<open>
  \<^verbatim>\<open>update_processed_agent_data\<close> tests \<^verbatim>\<open>not result\<close> on what
  \<^verbatim>\<open>execute\<close> returned for the update statement, commits, and returns the first row
  with the identifier, which is \<^verbatim>\<open>None\<close> when there is none.
\<close>

definition update_processed_agent_data ::
  "Database \<Rightarrow> int \<Rightarrow> ProcessedAgentData \<Rightarrow> (error + ProcessedAgentDataInDB option) \<times> Database" where
  "update_processed_agent_data db processed_agent_data_id data =
     (let session = SessionLocal db
      in case execute_update session processed_agent_data_id data of (result, session1) \<Rightarrow>
           if \<not> truthy result then (Inl (HTTPException 404), db)
           else let db1 = commit db session1
                in (Inr (first (execute_select session1 processed_agent_data_id)), db1))"

text \<open>
  \<^verbatim>\<open>delete_processed_agent_data\<close> reads the first row with the identifier, executes
  the delete statement, tests \<^verbatim>\<open>not result\<close> on what \<^verbatim>\<open>execute\<close> returned for
  it, commits, and returns the row read before.
\<close>

definition delete_processed_agent_data ::
  "Database \<Rightarrow> int \<Rightarrow> (error + ProcessedAgentDataInDB option) \<times> Database" where
  "delete_processed_agent_data db processed_agent_data_id =
     (let session = SessionLocal db;
          obj_to_delete = first (execute_select session processed_agent_data_id)
      in case execute_delete session processed_agent_data_id of (result, session1) \<Rightarrow>
           if \<not> truthy result then (Inl (HTTPException 404), db)
           else let db1 = commit db session1
                in (Inr obj_to_delete, db1))"

text \<open>
  The rows that inserting the records of a list one after the other appends, numbered
  from \<open>n\<close>.
\<close>

fun inserted_rows :: "int \<Rightarrow> ProcessedAgentData list \<Rightarrow> ProcessedAgentDataInDB list" where
  "inserted_rows n [] = []"
| "inserted_rows n (item # rest) = values_of n item # inserted_rows (n + 1) rest"

text \<open>An empty database, and environments for concrete runs.\<close>

definition empty_database :: Database where
  "empty_database = \<lparr>table = [], next_id = 1\<rparr>"

text \<open>
  The encoder of \<^verbatim>\<open>json.dumps\<close> without a \<^verbatim>\<open>default\<close> hook accepts
  dictionaries, lists, strings, numbers, booleans and \<^verbatim>\<open>None\<close>; for any other
  object, such as the result object of \<^verbatim>\<open>execute\<close>, it raises \<^verbatim>\<open>TypeError\<close>.
\<close>

definition dumps_rejects :: "CursorResult \<Rightarrow> string option" where
  "dumps_rejects result = None"

definition execute_fails_at :: "nat \<Rightarrow> environment" where
  "execute_fails_at k =
     \<lparr>execute_fails = (\<lambda>i. i = k), commit_fails = (\<lambda>i. False), dumps = dumps_rejects,
      send_fails = (\<lambda>i w. False), iter_order = ascending\<rparr>"

definition commit_fails_at :: "nat \<Rightarrow> environment" where
  "commit_fails_at k =
     \<lparr>execute_fails = (\<lambda>i. False), commit_fails = (\<lambda>i. i = k), dumps = dumps_rejects,
      send_fails = (\<lambda>i w. False), iter_order = ascending\<rparr>"

text \<open>
  An environment in which the database never fails and the serialiser is the standard
  encoder.
\<close>

definition no_faults :: environment where
  "no_faults =
     \<lparr>execute_fails = (\<lambda>i. False), commit_fails = (\<lambda>i. False), dumps = dumps_rejects,
      send_fails = (\<lambda>i w. False), iter_order = ascending\<rparr>"

section \<open>Properties of the classifier\<close>

lemma road_state_process_agent_data:
  "road_state (process_agent_data agent) =
     (if 14000 < z (accelerometer agent) \<and> z (accelerometer agent) \<le> 18000 then ''normal''
      else if 12000 < z (accelerometer agent) \<and> z (accelerometer agent) < 14000
            \<or> 18000 < z (accelerometer agent) \<and> z (accelerometer agent) < 20000
      then ''small pits''
      else ''large pits'')"
  by (simp add: process_agent_data_def Let_def)

text \<open>
  Claim C3. For every sample the label is \<^verbatim>\<open>normal\<close> exactly when
  \<open>14000 < z \<le> 18000\<close>, \<^verbatim>\<open>small pits\<close> exactly when \<open>12000 < z < 14000\<close> or
  \<open>18000 < z < 20000\<close>, and \<^verbatim>\<open>large pits\<close> exactly in the remaining case. At the
  boundaries: \<open>z = 14000\<close>, \<open>z = 12000\<close> and \<open>z = 20000\<close> give \<^verbatim>\<open>large pits\<close>,
  \<open>z = 18000\<close> gives \<^verbatim>\<open>normal\<close>.
\<close>

theorem classifier_intervals:
  "(road_state (process_agent_data agent) = ''normal'')
      = (14000 < z (accelerometer agent) \<and> z (accelerometer agent) \<le> 18000)
   \<and> (road_state (process_agent_data agent) = ''small pits'')
      = (12000 < z (accelerometer agent) \<and> z (accelerometer agent) < 14000
         \<or> 18000 < z (accelerometer agent) \<and> z (accelerometer agent) < 20000)
   \<and> (road_state (process_agent_data agent) = ''large pits'')
      = (\<not> (14000 < z (accelerometer agent) \<and> z (accelerometer agent) \<le> 18000)
         \<and> \<not> (12000 < z (accelerometer agent) \<and> z (accelerometer agent) < 14000
              \<or> 18000 < z (accelerometer agent) \<and> z (accelerometer agent) < 20000))
   \<and> road_state (process_agent_data (with_z agent 14000)) = ''large pits''
   \<and> road_state (process_agent_data (with_z agent 12000)) = ''large pits''
   \<and> road_state (process_agent_data (with_z agent 20000)) = ''large pits''
   \<and> road_state (process_agent_data (with_z agent 18000)) = ''normal''"
  by (simp add: road_state_process_agent_data with_z_def)

text \<open>
  Claim C10. The label depends on the vertical acceleration only: two inputs with the
  same \<open>z\<close> get the same label. The \<open>agent_data\<close> field of the result is the input,
  unchanged.
\<close>

theorem classifier_frame:
  "(z (accelerometer a) = z (accelerometer b)
      \<longrightarrow> road_state (process_agent_data a) = road_state (process_agent_data b))
   \<and> agent_data (process_agent_data a) = a"
  by (simp add: process_agent_data_def Let_def)

theorem classifier_frame_witness:
  "z (accelerometer \<lparr>user_id = 1, accelerometer = \<lparr>x = 0, y = 0, z = 15000\<rparr>,
        gps = \<lparr>latitude = 50, longitude = 30\<rparr>, timestamp = Datetime ''2024-01-01T00:00:00''\<rparr>)
     = z (accelerometer \<lparr>user_id = 2, accelerometer = \<lparr>x = 7, y = -3, z = 15000\<rparr>,
        gps = \<lparr>latitude = 49, longitude = 31\<rparr>, timestamp = Datetime ''2024-02-02T10:00:00''\<rparr>)
   \<and> road_state (process_agent_data \<lparr>user_id = 1, accelerometer = \<lparr>x = 0, y = 0, z = 15000\<rparr>,
        gps = \<lparr>latitude = 50, longitude = 30\<rparr>, timestamp = Datetime ''2024-01-01T00:00:00''\<rparr>)
     = road_state (process_agent_data \<lparr>user_id = 2, accelerometer = \<lparr>x = 7, y = -3, z = 15000\<rparr>,
        gps = \<lparr>latitude = 49, longitude = 31\<rparr>, timestamp = Datetime ''2024-02-02T10:00:00''\<rparr>)
   \<and> agent_data (process_agent_data \<lparr>user_id = 1, accelerometer = \<lparr>x = 0, y = 0, z = 15000\<rparr>,
        gps = \<lparr>latitude = 50, longitude = 30\<rparr>, timestamp = Datetime ''2024-01-01T00:00:00''\<rparr>)
     = \<lparr>user_id = 1, accelerometer = \<lparr>x = 0, y = 0, z = 15000\<rparr>,
        gps = \<lparr>latitude = 50, longitude = 30\<rparr>, timestamp = Datetime ''2024-01-01T00:00:00''\<rparr>"
  using classifier_frame
    [of "\<lparr>user_id = 1, accelerometer = \<lparr>x = 0, y = 0, z = 15000\<rparr>,
        gps = \<lparr>latitude = 50, longitude = 30\<rparr>, timestamp = Datetime ''2024-01-01T00:00:00''\<rparr>"
        "\<lparr>user_id = 2, accelerometer = \<lparr>x = 7, y = -3, z = 15000\<rparr>,
        gps = \<lparr>latitude = 49, longitude = 31\<rparr>, timestamp = Datetime ''2024-02-02T10:00:00''\<rparr>"]
  by simp

section \<open>Properties of the buffering adapter\<close>

lemma send_data_log:
  "snd (send_data post self data reqs)
     = reqs @ [(endpoint_url self, processed_agent_data_list_to_list_of_dict data)]"
  by (simp add: send_data_def Let_def split: post_result.split)

lemma send_data_fails:
  "delivery_fails (post (endpoint_url self) (processed_agent_data_list_to_list_of_dict data))
     \<Longrightarrow> fst (send_data post self data reqs) = False"
  by (auto simp: send_data_def Let_def split: post_result.split)

lemma save_data_below:
  "int (length (buffer self @ batch)) < buffer_size self
     \<Longrightarrow> save_data post self batch reqs = (True, self\<lparr>buffer := buffer self @ batch\<rparr>, reqs)"
  by (simp add: save_data_def Let_def)

lemma save_data_reached:
  "buffer_size self \<le> int (length (buffer self @ batch))
     \<Longrightarrow> save_data post self batch reqs
          = (fst (send_data post (self\<lparr>buffer := buffer self @ batch\<rparr>) (buffer self @ batch) reqs),
             self\<lparr>buffer := []\<rparr>,
             reqs @ [(endpoint_url self, processed_agent_data_list_to_list_of_dict (buffer self @ batch))])"
  using send_data_log [of post "self\<lparr>buffer := buffer self @ batch\<rparr>" "buffer self @ batch" reqs]
  by (auto simp: save_data_def Let_def endpoint_url_def split: prod.split)

text \<open>
  Claim C1 says that a failed delivery leaves the buffer as it was. The code clears the
  buffer after every delivery attempt. With a threshold of two and one record buffered,
  saving a second record while the store cannot be reached returns \<^verbatim>\<open>False\<close> and
  leaves an empty buffer: neither the two records submitted nor the record buffered
  before the call are kept.
\<close>

theorem flush_failure_loses_batch:
  "delivery_fails
     (unreachable_store
        (endpoint_url \<lparr>api_base_url = ''http://store'', buffer_size = 2, buffer = [sample_record 1 15000]\<rparr>)
        (processed_agent_data_list_to_list_of_dict [sample_record 1 15000, sample_record 1 13000]))
   \<and> fst (save_data unreachable_store
        \<lparr>api_base_url = ''http://store'', buffer_size = 2, buffer = [sample_record 1 15000]\<rparr>
        [sample_record 1 13000] []) = False
   \<and> buffer (fst (snd (save_data unreachable_store
        \<lparr>api_base_url = ''http://store'', buffer_size = 2, buffer = [sample_record 1 15000]\<rparr>
        [sample_record 1 13000] []))) = []
   \<and> buffer (fst (snd (save_data unreachable_store
        \<lparr>api_base_url = ''http://store'', buffer_size = 2, buffer = [sample_record 1 15000]\<rparr>
        [sample_record 1 13000] [])))
       \<noteq> [sample_record 1 15000, sample_record 1 13000]
   \<and> buffer (fst (snd (save_data unreachable_store
        \<lparr>api_base_url = ''http://store'', buffer_size = 2, buffer = [sample_record 1 15000]\<rparr>
        [sample_record 1 13000] [])))
       \<noteq> [sample_record 1 15000]"
  by (simp add: save_data_def send_data_def unreachable_store_def Let_def)

text \<open>
  Claim C1, amended. When a call of \<^verbatim>\<open>save_data\<close> reaches the threshold and the
  delivery attempt fails (the request raises or the response is not ok), the call
  returns \<^verbatim>\<open>False\<close>, exactly one request carrying the whole buffer has been made,
  and the buffer is empty afterwards: the batch is not kept for a later attempt.
\<close>

theorem flush_failure_returns_false_and_clears:
  assumes "buffer_size self \<le> int (length (buffer self @ batch))"
    and "delivery_fails
           (post (endpoint_url self)
              (processed_agent_data_list_to_list_of_dict (buffer self @ batch)))"
  shows "save_data post self batch reqs
           = (False, self\<lparr>buffer := []\<rparr>,
              reqs @ [(endpoint_url self,
                       processed_agent_data_list_to_list_of_dict (buffer self @ batch))])"
proof -
  have "fst (send_data post (self\<lparr>buffer := buffer self @ batch\<rparr>) (buffer self @ batch) reqs)
          = False"
    using assms(2) by (intro send_data_fails) (simp add: endpoint_url_def)
  then show ?thesis
    by (simp add: save_data_reached [OF assms(1)])
qed

theorem flush_failure_returns_false_and_clears_witness:
  "save_data rejecting_store
      \<lparr>api_base_url = ''http://store'', buffer_size = 2, buffer = [sample_record 1 15000]\<rparr>
      [sample_record 1 13000] []
     = (False,
        \<lparr>api_base_url = ''http://store'', buffer_size = 2, buffer = []\<rparr>,
        [(''http://store/processed_agent_data/'',
          processed_agent_data_list_to_list_of_dict [sample_record 1 15000, sample_record 1 13000])])
   \<and> save_data unreachable_store
      \<lparr>api_base_url = ''http://store'', buffer_size = 2, buffer = [sample_record 1 15000]\<rparr>
      [sample_record 1 13000] []
     = (False,
        \<lparr>api_base_url = ''http://store'', buffer_size = 2, buffer = []\<rparr>,
        [(''http://store/processed_agent_data/'',
          processed_agent_data_list_to_list_of_dict [sample_record 1 15000, sample_record 1 13000])])"
  using flush_failure_returns_false_and_clears
          [of "\<lparr>api_base_url = ''http://store'', buffer_size = 2, buffer = [sample_record 1 15000]\<rparr>"
              "[sample_record 1 13000]" rejecting_store "[]"]
        flush_failure_returns_false_and_clears
          [of "\<lparr>api_base_url = ''http://store'', buffer_size = 2, buffer = [sample_record 1 15000]\<rparr>"
              "[sample_record 1 13000]" unreachable_store "[]"]
  by (simp add: rejecting_store_def unreachable_store_def endpoint_url_def)

lemma inj_to_dict: "inj to_dict"
  by (rule injI)
    (auto simp: to_dict_def
      intro!: ProcessedAgentData.equality AgentData.equality AccelerometerData.equality
        GpsData.equality datetime.expand)

lemma full_chunks_short: "length rs < t \<Longrightarrow> full_chunks t rs = []"
  by (simp add: full_chunks.simps)

lemma full_chunks_step:
  "0 < t \<Longrightarrow> length c = t \<Longrightarrow> full_chunks t (c @ rs) = c # full_chunks t rs"
  by (subst full_chunks.simps) simp

lemma length_full_chunks: "0 < t \<Longrightarrow> length (full_chunks t rs) = length rs div t"
proof (induction t rs rule: full_chunks.induct)
  case (1 t rs)
  show ?case
  proof (cases "length rs < t")
    case True
    then show ?thesis by (simp add: full_chunks_short)
  next
    case False
    then have "length (full_chunks t rs) = Suc (length (full_chunks t (drop t rs)))"
      using "1.prems" by (subst full_chunks.simps) simp
    also have "\<dots> = Suc ((length rs - t) div t)"
      using "1.IH" "1.prems" False by simp
    also have "\<dots> = length rs div t"
      using False "1.prems" by (simp add: le_div_geq)
    finally show ?thesis .
  qed
qed

lemma length_chunk: "0 < t \<Longrightarrow> c \<in> set (full_chunks t rs) \<Longrightarrow> length c = t"
proof (induction t rs rule: full_chunks.induct)
  case (1 t rs)
  show ?case
  proof (cases "length rs < t")
    case True
    then show ?thesis using "1.prems" by (simp add: full_chunks_short)
  next
    case False
    then have "full_chunks t rs = take t rs # full_chunks t (drop t rs)"
      using "1.prems" by (subst full_chunks.simps) simp
    then show ?thesis
      using "1.IH" "1.prems" False by auto
  qed
qed

lemma concat_full_chunks:
  "0 < t \<Longrightarrow> concat (full_chunks t rs) = take (t * (length rs div t)) rs"
proof (induction t rs rule: full_chunks.induct)
  case (1 t rs)
  show ?case
  proof (cases "length rs < t")
    case True
    then show ?thesis by (simp add: full_chunks_short)
  next
    case False
    have div: "length rs div t = Suc ((length rs - t) div t)"
      using False "1.prems" by (simp add: le_div_geq)
    have "concat (full_chunks t rs) = take t rs @ concat (full_chunks t (drop t rs))"
      using False "1.prems" by (subst full_chunks.simps) simp
    also have "\<dots> = take t rs @ take (t * ((length rs - t) div t)) (drop t rs)"
      using "1.IH" "1.prems" False by simp
    also have "\<dots> = take (t + t * ((length rs - t) div t)) rs"
      by (simp add: take_add)
    finally show ?thesis by (simp add: div)
  qed
qed

lemma save_each_chunks:
  assumes "0 < t" and "buffer_size self = int t" and "length (buffer self) < t"
  shows "save_each post self rs reqs
    = (self\<lparr>buffer := drop (t * (length (buffer self @ rs) div t)) (buffer self @ rs)\<rparr>,
       reqs @ map (\<lambda>c. (endpoint_url self, map to_dict c)) (full_chunks t (buffer self @ rs)))"
  using assms
proof (induction rs arbitrary: self reqs)
  case Nil
  then show ?case by (simp add: full_chunks_short)
next
  case (Cons r rs)
  show ?case
  proof (cases "Suc (length (buffer self)) < t")
    case True
    then have below: "int (length (buffer self @ [r])) < buffer_size self"
      using Cons.prems by simp
    have "save_each post self (r # rs) reqs
        = save_each post (self\<lparr>buffer := buffer self @ [r]\<rparr>) rs reqs"
      by (simp add: save_data_below [OF below])
    also have "\<dots> = (self\<lparr>buffer := drop (t * (length (buffer self @ r # rs) div t)) (buffer self @ r # rs)\<rparr>,
       reqs @ map (\<lambda>c. (endpoint_url self, map to_dict c)) (full_chunks t (buffer self @ r # rs)))"
      using Cons.IH [of "self\<lparr>buffer := buffer self @ [r]\<rparr>" reqs] Cons.prems True
      by (simp add: endpoint_url_def)
    finally show ?thesis .
  next
    case False
    then have len: "length (buffer self @ [r]) = t"
      using Cons.prems by simp
    then have reached: "buffer_size self \<le> int (length (buffer self @ [r]))"
      using Cons.prems by simp
    have chunks: "full_chunks t (buffer self @ r # rs) = (buffer self @ [r]) # full_chunks t rs"
      using full_chunks_step [OF Cons.prems(1) len, of rs] by simp
    define c where "c = buffer self @ [r]"
    have c: "buffer self @ r # rs = c @ rs" "length c = t"
      using len by (simp_all add: c_def)
    have "length (c @ rs) div t = Suc (length rs div t)"
      using c(2) Cons.prems(1) by simp
    moreover have "drop (t * Suc (length rs div t)) (c @ rs) = drop (t * (length rs div t)) rs"
      using c(2) by simp
    ultimately have rest: "drop (t * (length (buffer self @ r # rs) div t)) (buffer self @ r # rs)
        = drop (t * (length rs div t)) rs"
      unfolding c(1) by simp
    have "save_each post self (r # rs) reqs
        = save_each post (self\<lparr>buffer := []\<rparr>) rs
            (reqs @ [(endpoint_url self, map to_dict (buffer self @ [r]))])"
      by (simp add: save_data_reached [OF reached] processed_agent_data_list_to_list_of_dict_def)
    also have "\<dots> = (self\<lparr>buffer := drop (t * (length rs div t)) rs\<rparr>,
       reqs @ [(endpoint_url self, map to_dict (buffer self @ [r]))]
         @ map (\<lambda>c. (endpoint_url self, map to_dict c)) (full_chunks t rs))"
      using Cons.IH [of "self\<lparr>buffer := []\<rparr>"
          "reqs @ [(endpoint_url self, map to_dict (buffer self @ [r]))]"] Cons.prems
      by (simp add: endpoint_url_def)
    finally show ?thesis
      unfolding chunks rest by simp
  qed
qed

text \<open>
  Claim C4 says that \<open>N \<ge> T\<close> enqueued records trigger exactly one delivery attempt.
  The buffer is cleared after each attempt and fills again: five records enqueued one
  by one into an empty buffer with threshold two trigger two requests, one with the
  first two records and one with the next two.
\<close>

theorem five_enqueues_two_deliveries:
  "(2::int) \<le> int (length [sample_record 1 15000, sample_record 1 13000, sample_record 1 100,
                          sample_record 1 19000, sample_record 1 16000])
   \<and> snd (save_each accepting_store (init_StoreApiAdapter ''http://store'' 2)
        [sample_record 1 15000, sample_record 1 13000, sample_record 1 100,
         sample_record 1 19000, sample_record 1 16000] [])
     = [(''http://store/processed_agent_data/'',
         map to_dict [sample_record 1 15000, sample_record 1 13000]),
        (''http://store/processed_agent_data/'',
         map to_dict [sample_record 1 100, sample_record 1 19000])]
   \<and> length (snd (save_each accepting_store (init_StoreApiAdapter ''http://store'' 2)
        [sample_record 1 15000, sample_record 1 13000, sample_record 1 100,
         sample_record 1 19000, sample_record 1 16000] [])) \<noteq> 1"
  by (simp add: save_data_def send_data_def accepting_store_def init_StoreApiAdapter_def
      endpoint_url_def processed_agent_data_list_to_list_of_dict_def Let_def)

text \<open>
  Claim C4, amended. A call of \<^verbatim>\<open>save_data\<close> after which the buffer holds at least
  \<open>T\<close> records (\<open>T\<close> the value of \<^verbatim>\<open>buffer_size\<close>) makes exactly one request,
  whose body is the dictionaries of the whole buffer, the new records included, and
  leaves the buffer empty. A call that leaves the buffer below \<open>T\<close> makes no request,
  returns \<^verbatim>\<open>True\<close> and keeps the records. So \<open>N\<close> records enqueued one by one
  into an empty buffer, with \<open>T \<ge> 1\<close>, trigger \<open>N div T\<close> requests in all (exactly one
  when \<open>T \<le> N < 2 T\<close>): one for each full group of \<open>T\<close> consecutive records, in order,
  carrying that group; the last \<open>N mod T\<close> records stay in the buffer. The dictionary of
  a record determines the record.
\<close>

theorem threshold_triggers_delivery_each_time:
  "(buffer_size self \<le> int (length (buffer self @ batch))
      \<longrightarrow> snd (save_data post self batch reqs)
            = (self\<lparr>buffer := []\<rparr>,
               reqs @ [(endpoint_url self, map to_dict (buffer self @ batch))]))
   \<and> (int (length (buffer self @ batch)) < buffer_size self
      \<longrightarrow> save_data post self batch reqs = (True, self\<lparr>buffer := buffer self @ batch\<rparr>, reqs))
   \<and> (buffer self = [] \<and> 1 \<le> buffer_size self
      \<longrightarrow> save_each post self rs reqs
            = (self\<lparr>buffer := drop (nat (buffer_size self) * (length rs div nat (buffer_size self))) rs\<rparr>,
               reqs @ map (\<lambda>c. (endpoint_url self, map to_dict c))
                        (full_chunks (nat (buffer_size self)) rs))
          \<and> length (full_chunks (nat (buffer_size self)) rs) = length rs div nat (buffer_size self)
          \<and> concat (full_chunks (nat (buffer_size self)) rs)
              = take (nat (buffer_size self) * (length rs div nat (buffer_size self))) rs
          \<and> (\<forall>c \<in> set (full_chunks (nat (buffer_size self)) rs). length c = nat (buffer_size self)))
   \<and> inj to_dict"
proof (intro conjI impI)
  assume "buffer_size self \<le> int (length (buffer self @ batch))"
  then show "snd (save_data post self batch reqs)
               = (self\<lparr>buffer := []\<rparr>,
                  reqs @ [(endpoint_url self, map to_dict (buffer self @ batch))])"
    by (simp add: save_data_reached processed_agent_data_list_to_list_of_dict_def)
next
  assume "int (length (buffer self @ batch)) < buffer_size self"
  then show "save_data post self batch reqs = (True, self\<lparr>buffer := buffer self @ batch\<rparr>, reqs)"
    by (rule save_data_below)
next
  assume a: "buffer self = [] \<and> 1 \<le> buffer_size self"
  then have t: "0 < nat (buffer_size self)" "buffer_size self = int (nat (buffer_size self))"
    "length (buffer self) < nat (buffer_size self)"
    by simp_all
  show "save_each post self rs reqs
            = (self\<lparr>buffer := drop (nat (buffer_size self) * (length rs div nat (buffer_size self))) rs\<rparr>,
               reqs @ map (\<lambda>c. (endpoint_url self, map to_dict c))
                        (full_chunks (nat (buffer_size self)) rs))"
    using save_each_chunks [OF t, of post rs reqs] a by simp
  show "length (full_chunks (nat (buffer_size self)) rs) = length rs div nat (buffer_size self)"
    using t(1) by (rule length_full_chunks)
  show "concat (full_chunks (nat (buffer_size self)) rs)
              = take (nat (buffer_size self) * (length rs div nat (buffer_size self))) rs"
    using t(1) by (rule concat_full_chunks)
  show "\<forall>c \<in> set (full_chunks (nat (buffer_size self)) rs). length c = nat (buffer_size self)"
    using t(1) by (simp add: length_chunk)
next
  show "inj to_dict"
    by (rule inj_to_dict)
qed


theorem threshold_triggers_delivery_each_time_witness:
  "snd (save_data accepting_store (init_StoreApiAdapter ''http://store'' 2)
        [sample_record 1 15000, sample_record 1 13000, sample_record 1 100] [])
     = (\<lparr>api_base_url = ''http://store'', buffer_size = 2, buffer = []\<rparr>,
        [(''http://store/processed_agent_data/'',
          map to_dict [sample_record 1 15000, sample_record 1 13000, sample_record 1 100])])
   \<and> save_data accepting_store (init_StoreApiAdapter ''http://store'' 2) [sample_record 1 15000] []
     = (True,
        \<lparr>api_base_url = ''http://store'', buffer_size = 2, buffer = [sample_record 1 15000]\<rparr>, [])
   \<and> save_each accepting_store (init_StoreApiAdapter ''http://store'' 2)
        [sample_record 1 15000, sample_record 1 13000, sample_record 1 100,
         sample_record 1 19000, sample_record 1 16000] []
     = (\<lparr>api_base_url = ''http://store'', buffer_size = 2, buffer = [sample_record 1 16000]\<rparr>,
        [(''http://store/processed_agent_data/'',
          map to_dict [sample_record 1 15000, sample_record 1 13000]),
         (''http://store/processed_agent_data/'',
          map to_dict [sample_record 1 100, sample_record 1 19000])])
   \<and> to_dict (sample_record 1 13000)
     = JObject
        [(''road_state'', JString ''small pits''),
         (''agent_data'', JObject
            [(''user_id'', JInt 1),
             (''accelerometer'', JObject [(''x'', JNumber 0), (''y'', JNumber 0), (''z'', JNumber 13000)]),
             (''gps'', JObject [(''latitude'', JNumber 50), (''longitude'', JNumber 30)]),
             (''timestamp'', JString ''2024-01-01T00:00:00+00:00'')])]"
proof -
  have chunks: "full_chunks 2 [sample_record 1 15000, sample_record 1 13000, sample_record 1 100,
         sample_record 1 19000, sample_record 1 16000]
      = [[sample_record 1 15000, sample_record 1 13000], [sample_record 1 100, sample_record 1 19000]]"
    by (simp add: full_chunks.simps)
  have body: "to_dict (sample_record 1 13000)
     = JObject
        [(''road_state'', JString ''small pits''),
         (''agent_data'', JObject
            [(''user_id'', JInt 1),
             (''accelerometer'', JObject [(''x'', JNumber 0), (''y'', JNumber 0), (''z'', JNumber 13000)]),
             (''gps'', JObject [(''latitude'', JNumber 50), (''longitude'', JNumber 30)]),
             (''timestamp'', JString ''2024-01-01T00:00:00+00:00'')])]"
    by (simp add: to_dict_def sample_record_def sample_agent_def process_agent_data_def)
  show ?thesis
    using threshold_triggers_delivery_each_time
          [of "init_StoreApiAdapter ''http://store'' 2"
              "[sample_record 1 15000, sample_record 1 13000, sample_record 1 100]" accepting_store "[]"
              "[sample_record 1 15000, sample_record 1 13000, sample_record 1 100,
                sample_record 1 19000, sample_record 1 16000]"]
        threshold_triggers_delivery_each_time
          [of "init_StoreApiAdapter ''http://store'' 2"
              "[sample_record 1 15000]" accepting_store "[]" "[]"]
        body
    by (simp add: init_StoreApiAdapter_def endpoint_url_def save_data_def send_data_def
        accepting_store_def processed_agent_data_list_to_list_of_dict_def Let_def chunks)
qed


section \<open>Properties of the subscriptions\<close>

lemma iteration_order_ascending: "iteration_order ascending"
  by (simp add: iteration_order_def ascending_def)

lemma subscribe_eq:
  "websocket_endpoint_subscribe subs websocket uid
     = Inr (subs(uid \<mapsto> insert websocket (registered subs uid)))"
  by (auto simp: websocket_endpoint_subscribe_def registered_def Let_def split: option.split)

lemma registered_upd:
  "registered (subs(uid \<mapsto> S)) q = (if q = uid then S else registered subs q)"
  by (simp add: registered_def)

lemma finite_registry_registered: "finite_registry subs \<Longrightarrow> finite (registered subs uid)"
  by (auto simp: finite_registry_def registered_def split: option.split)

lemma send_loop_all_sent:
  "json_dumps data = Some payload \<Longrightarrow> \<forall>w \<in> set ws. \<not> send_raises w
     \<Longrightarrow> send_loop json_dumps send_raises data ws = (Inr (), map (\<lambda>w. (w, payload)) ws)"
  by (induction ws) auto

lemma send_loop_stops:
  "json_dumps data = Some payload \<Longrightarrow> \<forall>w \<in> set pre. \<not> send_raises w \<Longrightarrow> send_raises broken
     \<Longrightarrow> send_loop json_dumps send_raises data (pre @ broken # post)
          = (Inl SendError, map (\<lambda>w. (w, payload)) pre)"
  by (induction pre) auto

lemma send_loop_receivers:
  "m \<in> set (snd (send_loop json_dumps send_raises data ws)) \<Longrightarrow> fst m \<in> set ws"
  by (induction ws) (auto split: option.splits prod.splits if_splits)

lemma delivered_to_once:
  "distinct ws \<Longrightarrow> w \<in> set ws \<Longrightarrow> delivered_to w (map (\<lambda>v. (v, payload)) ws) = [payload]"
  by (induction ws) (auto simp: delivered_to_def filter_empty_conv o_def)

lemma delivered_to_none:
  "w \<notin> fst ` set msgs \<Longrightarrow> delivered_to w msgs = []"
  by (auto simp: delivered_to_def filter_empty_conv)

lemma notify_eq:
  "send_data_to_subscribers set_order json_dumps send_raises subs uid data
     = (case subs uid of None \<Rightarrow> (Inr (), subs, [])
        | Some S \<Rightarrow> (fst (send_loop json_dumps send_raises data (set_order S)), subs,
                     snd (send_loop json_dumps send_raises data (set_order S))))"
  by (simp add: send_data_to_subscribers_def split: option.split prod.split)

lemma notify_receivers:
  assumes "iteration_order set_order" "finite_registry subs"
  shows "fst ` set (snd (snd (send_data_to_subscribers set_order json_dumps send_raises subs uid data)))
           \<subseteq> registered subs uid"
proof (cases "subs uid")
  case None
  then show ?thesis by (simp add: notify_eq)
next
  case (Some S)
  then have "finite S" using assms(2) by (auto simp: finite_registry_def)
  then have "set (set_order S) = S" using assms(1) by (simp add: iteration_order_def)
  then show ?thesis
    using Some send_loop_receivers [of _ json_dumps send_raises data "set_order S"]
    by (auto simp: notify_eq registered_def)
qed

text \<open>
  The registry and a notification whose payload the serialiser accepts and whose sends
  succeed: after a connection has been subscribed under a user id, such a notification
  for that user id reaches that connection exactly once, and every other connection
  registered under the same user id exactly once. A notification for another user id,
  under which the connection is not registered, sends nothing to it. Subscribing the
  same connection again leaves the registry as it is. This holds for every order in
  which the set may be iterated.
\<close>

lemma subscribe_then_notify:
  assumes ord: "iteration_order set_order"
    and fin: "finite_registry subs"
    and sub: "websocket_endpoint_subscribe subs websocket p = Inr subs1"
  shows "websocket \<in> registered subs1 p
    \<and> websocket_endpoint_subscribe subs1 websocket p = Inr subs1
    \<and> (json_dumps data = Some payload \<and> (\<forall>w \<in> registered subs1 p. \<not> send_raises w)
        \<longrightarrow> fst (send_data_to_subscribers set_order json_dumps send_raises subs1 p data) = Inr ()
          \<and> (\<forall>w \<in> registered subs1 p.
                delivered_to w
                  (snd (snd (send_data_to_subscribers set_order json_dumps send_raises subs1 p data)))
                = [payload]))
    \<and> (q \<noteq> p \<and> websocket \<notin> registered subs q
        \<longrightarrow> delivered_to websocket
              (snd (snd (send_data_to_subscribers set_order json_dumps send_raises subs1 q data)))
            = [])"
proof -
  define S where "S = insert websocket (registered subs p)"
  have subs1: "subs1 = subs(p \<mapsto> S)"
    using sub by (simp add: subscribe_eq S_def)
  have reg: "registered subs1 p = S"
    by (simp add: subs1 registered_upd)
  have "finite S"
    using fin by (simp add: S_def finite_registry_registered)
  then have order: "set (set_order S) = S" "distinct (set_order S)"
    using ord by (simp_all add: iteration_order_def)
  have fin1: "finite_registry subs1"
    using fin \<open>finite S\<close> by (auto simp: finite_registry_def subs1 split: if_splits)
  have member: "websocket \<in> registered subs1 p"
    by (simp add: reg S_def)
  have again: "websocket_endpoint_subscribe subs1 websocket p = Inr subs1"
    by (simp add: subscribe_eq reg) (simp add: subs1 S_def insert_absorb)
  have notify: "fst (send_data_to_subscribers set_order json_dumps send_raises subs1 p data) = Inr ()
      \<and> (\<forall>w \<in> registered subs1 p.
            delivered_to w
              (snd (snd (send_data_to_subscribers set_order json_dumps send_raises subs1 p data)))
            = [payload])"
    if "json_dumps data = Some payload \<and> (\<forall>w \<in> registered subs1 p. \<not> send_raises w)"
  proof -
    have "send_loop json_dumps send_raises data (set_order S)
            = (Inr (), map (\<lambda>w. (w, payload)) (set_order S))"
      using that reg order by (intro send_loop_all_sent) simp_all
    moreover have "delivered_to w (map (\<lambda>v. (v, payload)) (set_order S)) = [payload]"
      if "w \<in> S" for w
    proof -
      have "w \<in> set (set_order S)" using that order(1) by simp
      with order(2) show ?thesis by (rule delivered_to_once)
    qed
    ultimately show ?thesis
      by (simp add: notify_eq subs1 registered_upd)
  qed
  have other: "delivered_to websocket
        (snd (snd (send_data_to_subscribers set_order json_dumps send_raises subs1 q data))) = []"
    if "q \<noteq> p \<and> websocket \<notin> registered subs q"
  proof -
    have "websocket \<notin> registered subs1 q"
      using that by (simp add: subs1 registered_upd)
    then show ?thesis
      using notify_receivers [OF ord fin1, of json_dumps send_raises q data]
      by (intro delivered_to_none) blast
  qed
  show ?thesis
    using member again notify other by blast
qed

lemma subscribe_then_notify_example:
  "iteration_order ascending
   \<and> finite_registry (initial_subscriptions(5 \<mapsto> {8}, 6 \<mapsto> {9}))
   \<and> websocket_endpoint_subscribe (initial_subscriptions(5 \<mapsto> {8}, 6 \<mapsto> {9})) 7 5
       = Inr (initial_subscriptions(5 \<mapsto> {7, 8}, 6 \<mapsto> {9}))
   \<and> 7 \<in> registered (initial_subscriptions(5 \<mapsto> {7, 8}, 6 \<mapsto> {9})) 5
   \<and> websocket_endpoint_subscribe (initial_subscriptions(5 \<mapsto> {7, 8}, 6 \<mapsto> {9})) 7 5
       = Inr (initial_subscriptions(5 \<mapsto> {7, 8}, 6 \<mapsto> {9}))
   \<and> fst (send_data_to_subscribers ascending dumps_text never_fails
        (initial_subscriptions(5 \<mapsto> {7, 8}, 6 \<mapsto> {9})) 5 ''r'') = Inr ()
   \<and> delivered_to 7 (snd (snd (send_data_to_subscribers ascending dumps_text never_fails
        (initial_subscriptions(5 \<mapsto> {7, 8}, 6 \<mapsto> {9})) 5 ''r''))) = [[CHR 0x22, CHR ''r'', CHR 0x22]]
   \<and> delivered_to 8 (snd (snd (send_data_to_subscribers ascending dumps_text never_fails
        (initial_subscriptions(5 \<mapsto> {7, 8}, 6 \<mapsto> {9})) 5 ''r''))) = [[CHR 0x22, CHR ''r'', CHR 0x22]]
   \<and> delivered_to 7 (snd (snd (send_data_to_subscribers ascending dumps_text never_fails
        (initial_subscriptions(5 \<mapsto> {7, 8}, 6 \<mapsto> {9})) 6 ''r''))) = []"
proof -
  have h1: "iteration_order ascending"
    by (rule iteration_order_ascending)
  have h2: "finite_registry (initial_subscriptions(5 \<mapsto> {8}, 6 \<mapsto> {9}))"
    by (auto simp: finite_registry_def initial_subscriptions_def split: if_splits)
  have h3: "websocket_endpoint_subscribe (initial_subscriptions(5 \<mapsto> {8}, 6 \<mapsto> {9})) 7 5
       = Inr (initial_subscriptions(5 \<mapsto> {7, 8}, 6 \<mapsto> {9}))"
    by (simp add: websocket_endpoint_subscribe_def initial_subscriptions_def fun_upd_twist)
  have h4: "registered (initial_subscriptions(5 \<mapsto> {7, 8}, 6 \<mapsto> {9})) 5 = {7, 8}"
    "7 \<notin> registered (initial_subscriptions(5 \<mapsto> {8}, 6 \<mapsto> {9})) 6"
    by (simp_all add: registered_def)
  show ?thesis
    using h1 h2 h3 h4
      subscribe_then_notify [OF h1 h2 h3, of dumps_text "''r''" "[CHR 0x22, CHR ''r'', CHR 0x22]" never_fails 6]
    by (simp add: dumps_text_def never_fails_def)
qed

text \<open>
  Claim C8 says that unsubscribing a connection that is not registered is a no-op. The
  code removes with \<^verbatim>\<open>set.remove\<close>: after one subscribe and one unsubscribe, a
  second unsubscribe of the same connection raises \<^verbatim>\<open>KeyError\<close>, and so does an
  unsubscribe under a user id that never had an entry.
\<close>

theorem second_unsubscribe_raises:
  "websocket_endpoint_subscribe initial_subscriptions 7 5 = Inr (initial_subscriptions(5 \<mapsto> {7}))
   \<and> websocket_endpoint_unsubscribe (initial_subscriptions(5 \<mapsto> {7})) 7 5
       = Inr (initial_subscriptions(5 \<mapsto> {}))
   \<and> websocket_endpoint_unsubscribe (initial_subscriptions(5 \<mapsto> {})) 7 5 = Inl KeyError
   \<and> websocket_endpoint_unsubscribe initial_subscriptions 7 5 = Inl KeyError"
  by (simp add: websocket_endpoint_subscribe_def websocket_endpoint_unsubscribe_def
      initial_subscriptions_def)

text \<open>
  Claim C8, amended. Unsubscribing a connection that is registered under the user id
  removes it and raises nothing; unsubscribing a connection that is not registered there
  (already removed, never added, or no entry for the user id) raises \<^verbatim>\<open>KeyError\<close>.
  The unsubscribe that follows a connection's own subscribe succeeds, and a further one
  raises.
\<close>

theorem unsubscribe_registered_only:
  "websocket_endpoint_unsubscribe subs websocket uid
     = (if websocket \<in> registered subs uid
        then Inr (subs(uid \<mapsto> registered subs uid - {websocket}))
        else Inl KeyError)
   \<and> (websocket_endpoint_subscribe subs websocket uid = Inr subs1
      \<longrightarrow> (\<exists>subs2. websocket_endpoint_unsubscribe subs1 websocket uid = Inr subs2
            \<and> websocket \<notin> registered subs2 uid
            \<and> websocket_endpoint_unsubscribe subs2 websocket uid = Inl KeyError))"
proof -
  have unsub: "websocket_endpoint_unsubscribe s w u
     = (if w \<in> registered s u then Inr (s(u \<mapsto> registered s u - {w})) else Inl KeyError)"
    for s w u
    by (simp add: websocket_endpoint_unsubscribe_def registered_def split: option.split)
  show ?thesis
    by (auto simp: unsub subscribe_eq registered_upd)
qed

theorem unsubscribe_registered_only_witness:
  "websocket_endpoint_unsubscribe (initial_subscriptions(5 \<mapsto> {7, 8})) 7 5
     = Inr (initial_subscriptions(5 \<mapsto> {8}))
   \<and> websocket_endpoint_subscribe (initial_subscriptions(5 \<mapsto> {8})) 7 5
     = Inr (initial_subscriptions(5 \<mapsto> {7, 8}))
   \<and> 7 \<notin> registered (initial_subscriptions(5 \<mapsto> {8})) 5
   \<and> websocket_endpoint_unsubscribe (initial_subscriptions(5 \<mapsto> {8})) 7 5 = Inl KeyError"
proof -
  have h: "websocket_endpoint_subscribe (initial_subscriptions(5 \<mapsto> {8})) 7 5
     = Inr (initial_subscriptions(5 \<mapsto> {7, 8}))"
    by (simp add: websocket_endpoint_subscribe_def initial_subscriptions_def)
  have r: "registered (initial_subscriptions(5 \<mapsto> {7, 8})) 5 = {7, 8}"
    "registered (initial_subscriptions(5 \<mapsto> {8})) 5 = {8}"
    by (simp_all add: registered_def)
  have d: "{7, 8} - {7::nat} = {8}"
    by auto
  show ?thesis
    using h
      unsubscribe_registered_only
        [of "initial_subscriptions(5 \<mapsto> {8})" 7 5 "initial_subscriptions(5 \<mapsto> {7, 8})"]
      unsubscribe_registered_only
        [of "initial_subscriptions(5 \<mapsto> {7, 8})" 7 5 "initial_subscriptions(5 \<mapsto> {7, 8})"]
    by (simp add: r d)
qed

text \<open>
  Claim C9 says that a failed send is isolated. With connections 7 and 8 registered for
  user 5, visited in ascending order, and the send to 7 failing: the exception leaves
  \<^verbatim>\<open>send_data_to_subscribers\<close>, connection 8, whose send would succeed, receives
  nothing, and connection 7 is still registered afterwards.
\<close>

theorem failed_send_not_isolated:
  "send_data_to_subscribers ascending dumps_text (only_fails 7)
      (initial_subscriptions(5 \<mapsto> {7, 8})) 5 ''r''
     = (Inl SendError, initial_subscriptions(5 \<mapsto> {7, 8}), [])
   \<and> 7 \<in> registered (initial_subscriptions(5 \<mapsto> {7, 8})) 5
   \<and> 8 \<in> registered (initial_subscriptions(5 \<mapsto> {7, 8})) 5
   \<and> \<not> only_fails 7 8"
  by (simp add: send_data_to_subscribers_def ascending_def dumps_text_def only_fails_def
      registered_def)

text \<open>
  Claim C9, amended. When the send to a connection fails during a notification, the
  exception leaves \<^verbatim>\<open>send_data_to_subscribers\<close>: the connections visited before
  the failing one have received the payload, the failing one and those after it in the
  iteration order receive nothing, and the registry is unchanged, so the failing
  connection stays registered until its own endpoint handles the disconnect.
\<close>

theorem failed_send_aborts_notify:
  assumes "iteration_order set_order"
    and "subs uid = Some S"
    and "finite S"
    and "set_order S = pre @ broken # post"
    and "json_dumps data = Some payload"
    and "\<forall>w \<in> set pre. \<not> send_raises w"
    and "send_raises broken"
  shows "send_data_to_subscribers set_order json_dumps send_raises subs uid data
           = (Inl SendError, subs, map (\<lambda>w. (w, payload)) pre)
    \<and> broken \<in> registered subs uid
    \<and> (\<forall>w \<in> set (broken # post). delivered_to w (map (\<lambda>w. (w, payload)) pre) = [])"
proof -
  have order: "set (set_order S) = S" "distinct (set_order S)"
    using assms(1,3) by (simp_all add: iteration_order_def)
  have "send_loop json_dumps send_raises data (set_order S)
          = (Inl SendError, map (\<lambda>w. (w, payload)) pre)"
    unfolding assms(4) using assms(5,6,7) by (rule send_loop_stops)
  then have result: "send_data_to_subscribers set_order json_dumps send_raises subs uid data
           = (Inl SendError, subs, map (\<lambda>w. (w, payload)) pre)"
    by (simp add: notify_eq assms(2))
  have "broken \<in> S"
    using order(1) assms(4) by auto
  then have member: "broken \<in> registered subs uid"
    by (simp add: registered_def assms(2))
  have "w \<notin> set pre" if "w \<in> set (broken # post)" for w
    using order(2) that unfolding assms(4) by auto
  then have "\<forall>w \<in> set (broken # post). delivered_to w (map (\<lambda>w. (w, payload)) pre) = []"
    by (auto intro!: delivered_to_none simp: image_iff)
  with result member show ?thesis by blast
qed

theorem failed_send_aborts_notify_witness:
  "send_data_to_subscribers ascending dumps_text (only_fails 8)
      (initial_subscriptions(5 \<mapsto> {7, 8, 9})) 5 ''r''
     = (Inl SendError, initial_subscriptions(5 \<mapsto> {7, 8, 9}), [(7, [CHR 0x22, CHR ''r'', CHR 0x22])])
   \<and> 8 \<in> registered (initial_subscriptions(5 \<mapsto> {7, 8, 9})) 5
   \<and> delivered_to 8 [(7, [CHR 0x22, CHR ''r'', CHR 0x22])] = []
   \<and> delivered_to 9 [(7, [CHR 0x22, CHR ''r'', CHR 0x22])] = []"
proof -
  have h1: "iteration_order ascending"
    by (rule iteration_order_ascending)
  have h2: "(initial_subscriptions(5 \<mapsto> {7, 8, 9})) 5 = Some {7, 8, 9}"
    by simp
  have h3: "finite {7::nat, 8, 9}"
    by simp
  have h4: "ascending {7, 8, 9} = [7] @ 8 # [9]"
    by (simp add: ascending_def)
  have h5: "dumps_text ''r'' = Some [CHR 0x22, CHR ''r'', CHR 0x22]"
    by (simp add: dumps_text_def)
  have h6: "\<forall>w \<in> set [7]. \<not> only_fails 8 w"
    by (simp add: only_fails_def)
  have h7: "only_fails 8 8"
    by (simp add: only_fails_def)
  show ?thesis
    using failed_send_aborts_notify
      [where set_order = ascending and subs = "initial_subscriptions(5 \<mapsto> {7, 8, 9})"
         and uid = 5 and S = "{7, 8, 9}" and pre = "[7]" and broken = 8 and post = "[9]"
         and json_dumps = dumps_text and data = "''r''"
         and payload = "[CHR 0x22, CHR ''r'', CHR 0x22]" and send_raises = "only_fails 8",
       OF h1 h2 h3 h4 h5 h6 h7]
    by (simp add: delivered_to_def)
qed

section \<open>Properties of ingestion\<close>

lemma user_id_sample_record: "user_id (agent_data (sample_record uid v)) = uid"
  by (simp add: sample_record_def sample_agent_def process_agent_data_def)


lemma create_loop_append:
  "create_loop env subs i db session (xs @ ys)
     = (case create_loop env subs i db session xs of
          (Inl e, db1, session1, msgs) \<Rightarrow> (Inl e, db1, session1, msgs)
        | (Inr u, db1, session1, msgs) \<Rightarrow>
            (case create_loop env subs (i + length xs) db1 session1 ys of
               (outcome, db2, session2, msgs2) \<Rightarrow> (outcome, db2, session2, msgs @ msgs2)))"
proof (induction xs arbitrary: i db session)
  case Nil
  then show ?case by (simp split: prod.split)
next
  case (Cons item xs)
  show ?case
    by (simp add: Cons.IH Let_def split: prod.split sum.split)
qed

lemma create_loop_success:
  "create_loop env subs i db session xs = (Inr u, db1, session1, msgs)
     \<Longrightarrow> working session = table db
     \<Longrightarrow> table db1 = table db @ inserted_rows (next_id db) xs
         \<and> working session1 = table db1
         \<and> next_id db1 = next_id db + int (length xs)"
proof (induction xs arbitrary: i db session msgs)
  case Nil
  then show ?case by simp
next
  case (Cons item xs)
  from Cons.prems(1) have ok: "\<not> execute_fails env i" "\<not> commit_fails env i"
    by (auto split: if_splits prod.splits)
  define db2 where "db2 = \<lparr>table = table db @ [values_of (next_id db) item], next_id = next_id db + 1\<rparr>"
  define session2 where "session2 = session\<lparr>working := working session @ [values_of (next_id db) item]\<rparr>"
  have step: "commit (db\<lparr>next_id := next_id db + 1\<rparr>) session2 = db2"
    using Cons.prems(2) by (simp add: commit_def db2_def session2_def)
  from Cons.prems(1) ok obtain msgs3 where
    rest: "create_loop env subs (Suc i) db2 session2 xs = (Inr u, db1, session1, msgs3)"
    by (auto simp: execute_insert_def Let_def step session2_def [symmetric]
        split: prod.splits sum.splits)
  have "working session2 = table db2"
    using Cons.prems(2) by (simp add: db2_def session2_def)
  from Cons.IH [OF rest this] show ?case
    by (simp add: db2_def)
qed

lemma create_loop_head_fails:
  assumes "execute_fails env i \<or> commit_fails env i" and "working session = table db"
  shows "fst (create_loop env subs i db session (item # rest)) = Inl StorageError
    \<and> table (fst (snd (create_loop env subs i db session (item # rest)))) = table db
    \<and> snd (snd (snd (create_loop env subs i db session (item # rest)))) = []"
  using assms by (auto simp: execute_insert_def)

lemma create_loop_fails_at:
  assumes "k < length data"
    and "create_loop env subs i db session (take k data) = (Inr (), db_k, session_k, msgs_k)"
    and "working session = table db"
    and "execute_fails env (i + k) \<or> commit_fails env (i + k)"
  shows "fst (create_loop env subs i db session data) = Inl StorageError
    \<and> table (fst (snd (create_loop env subs i db session data)))
        = table db @ inserted_rows (next_id db) (take k data)
    \<and> snd (snd (snd (create_loop env subs i db session data))) = msgs_k"
proof -
  define tail where "tail = data ! k # drop (Suc k) data"
  have data: "take k data @ tail = data"
    using assms(1) by (simp add: tail_def id_take_nth_drop [symmetric])
  have inv: "table db_k = table db @ inserted_rows (next_id db) (take k data)"
    "working session_k = table db_k"
    using create_loop_success [OF assms(2,3)] by simp_all
  have len: "i + length (take k data) = i + k"
    using assms(1) by simp
  have tail: "fst (create_loop env subs (i + k) db_k session_k tail) = Inl StorageError
    \<and> table (fst (snd (create_loop env subs (i + k) db_k session_k tail))) = table db_k
    \<and> snd (snd (snd (create_loop env subs (i + k) db_k session_k tail))) = []"
    unfolding tail_def using assms(4) inv(2) by (rule create_loop_head_fails)
  have "create_loop env subs i db session (take k data @ tail)
      = (case create_loop env subs (i + k) db_k session_k tail of
           (outcome, db2, session2, msgs2) \<Rightarrow> (outcome, db2, session2, msgs_k @ msgs2))"
    unfolding create_loop_append assms(2) len by simp
  then show ?thesis
    using tail inv(1) unfolding data by (simp split: prod.splits)
qed

text \<open>
  Claim C2. Positions are counted from 0 here, so record \<open>k\<close> below is the claim's
  record \<open>k + 1\<close>. When the loop has reached record \<open>k\<close> (the records before it were
  processed without an exception) and \<^verbatim>\<open>execute\<close> or \<^verbatim>\<open>commit\<close> raises for it,
  the call ends with that error, and the table is the table before the call followed by
  the rows of the records before \<open>k\<close>, in order: they stay committed, and neither record
  \<open>k\<close> nor a later one is.
\<close>

theorem persistence_error_aborts_batch:
  assumes "k < length data"
    and "create_loop env subs 0 db (SessionLocal db) (take k data) = (Inr (), db_k, session_k, msgs_k)"
    and "execute_fails env k \<or> commit_fails env k"
  shows "fst (create_processed_agent_data env subs db data) = Inl StorageError
    \<and> table (fst (snd (create_processed_agent_data env subs db data)))
        = table db @ inserted_rows (next_id db) (take k data)"
  using create_loop_fails_at [OF assms(1,2)] assms(3)
  by (auto simp: create_processed_agent_data_def SessionLocal_def split: prod.splits)

text \<open>
  Claim C6. When \<^verbatim>\<open>execute\<close> or \<^verbatim>\<open>commit\<close> raises for record \<open>k\<close> (counted
  from 0), the messages the call has sent are exactly the messages sent while processing
  the records before \<open>k\<close>, each of which is committed: nothing is sent for the record
  whose persistence failed.
\<close>

theorem no_notification_without_persistence:
  assumes "k < length data"
    and "create_loop env subs 0 db (SessionLocal db) (take k data) = (Inr (), db_k, session_k, msgs_k)"
    and "execute_fails env k \<or> commit_fails env k"
  shows "fst (create_processed_agent_data env subs db data) = Inl StorageError
    \<and> snd (snd (create_processed_agent_data env subs db data)) = msgs_k
    \<and> table db_k = table db @ inserted_rows (next_id db) (take k data)"
  using create_loop_fails_at [OF assms(1,2)] assms(3) create_loop_success [OF assms(2)]
  by (auto simp: create_processed_agent_data_def SessionLocal_def split: prod.splits)


theorem persistence_error_aborts_batch_witness:
  "(1::nat) < length [sample_record 1 15000, sample_record 1 13000, sample_record 2 100]
   \<and> create_loop (execute_fails_at 1) (initial_subscriptions(2 \<mapsto> {7})) 0 empty_database
        (SessionLocal empty_database) (take 1 [sample_record 1 15000, sample_record 1 13000, sample_record 2 100])
       = (Inr (), \<lparr>table = [values_of 1 (sample_record 1 15000)], next_id = 2\<rparr>,
          \<lparr>working = [values_of 1 (sample_record 1 15000)]\<rparr>, [])
   \<and> execute_fails (execute_fails_at 1) 1
   \<and> fst (create_processed_agent_data (execute_fails_at 1) (initial_subscriptions(2 \<mapsto> {7}))
        empty_database [sample_record 1 15000, sample_record 1 13000, sample_record 2 100])
       = Inl StorageError
   \<and> table (fst (snd (create_processed_agent_data (execute_fails_at 1)
        (initial_subscriptions(2 \<mapsto> {7})) empty_database
        [sample_record 1 15000, sample_record 1 13000, sample_record 2 100])))
       = [values_of 1 (sample_record 1 15000)]"
proof -
  have h1: "(1::nat) < length [sample_record 1 15000, sample_record 1 13000, sample_record 2 100]"
    by simp
  have h2: "create_loop (execute_fails_at 1) (initial_subscriptions(2 \<mapsto> {7})) 0 empty_database
        (SessionLocal empty_database) (take 1 [sample_record 1 15000, sample_record 1 13000, sample_record 2 100])
       = (Inr (), \<lparr>table = [values_of 1 (sample_record 1 15000)], next_id = 2\<rparr>,
          \<lparr>working = [values_of 1 (sample_record 1 15000)]\<rparr>, [])"
    by (simp add: execute_fails_at_def empty_database_def SessionLocal_def execute_insert_def
        commit_def send_data_to_subscribers_def initial_subscriptions_def sample_record_def
        sample_agent_def process_agent_data_def Let_def)
  have h3: "execute_fails (execute_fails_at 1) 1 \<or> commit_fails (execute_fails_at 1) 1"
    by (simp add: execute_fails_at_def)
  show ?thesis
    using h1 h2 h3 persistence_error_aborts_batch [OF h1 h2 h3]
    by (simp add: execute_fails_at_def empty_database_def)
qed

theorem no_notification_without_persistence_witness:
  "(1::nat) < length [sample_record 1 15000, sample_record 2 13000]
   \<and> create_loop (commit_fails_at 1) (initial_subscriptions(2 \<mapsto> {7})) 0 empty_database
        (SessionLocal empty_database) (take 1 [sample_record 1 15000, sample_record 2 13000])
       = (Inr (), \<lparr>table = [values_of 1 (sample_record 1 15000)], next_id = 2\<rparr>,
          \<lparr>working = [values_of 1 (sample_record 1 15000)]\<rparr>, [])
   \<and> commit_fails (commit_fails_at 1) 1
   \<and> user_id (agent_data ([sample_record 1 15000, sample_record 2 13000] ! 1)) = 2
   \<and> registered (initial_subscriptions(2 \<mapsto> {7})) 2 = {7}
   \<and> fst (create_processed_agent_data (commit_fails_at 1) (initial_subscriptions(2 \<mapsto> {7}))
        empty_database [sample_record 1 15000, sample_record 2 13000])
       = Inl StorageError
   \<and> snd (snd (create_processed_agent_data (commit_fails_at 1)
        (initial_subscriptions(2 \<mapsto> {7})) empty_database
        [sample_record 1 15000, sample_record 2 13000]))
       = []
   \<and> [values_of 1 (sample_record 1 15000)]
       = table empty_database @ inserted_rows (next_id empty_database)
           (take 1 [sample_record 1 15000, sample_record 2 13000])"
proof -
  have h1: "(1::nat) < length [sample_record 1 15000, sample_record 2 13000]"
    by simp
  have h2: "create_loop (commit_fails_at 1) (initial_subscriptions(2 \<mapsto> {7})) 0 empty_database
        (SessionLocal empty_database) (take 1 [sample_record 1 15000, sample_record 2 13000])
       = (Inr (), \<lparr>table = [values_of 1 (sample_record 1 15000)], next_id = 2\<rparr>,
          \<lparr>working = [values_of 1 (sample_record 1 15000)]\<rparr>, [])"
    by (simp add: commit_fails_at_def empty_database_def SessionLocal_def execute_insert_def
        commit_def send_data_to_subscribers_def initial_subscriptions_def
        user_id_sample_record Let_def)
  have h3: "execute_fails (commit_fails_at 1) 1 \<or> commit_fails (commit_fails_at 1) 1"
    by (simp add: commit_fails_at_def)
  have h4: "user_id (agent_data ([sample_record 1 15000, sample_record 2 13000] ! 1)) = 2"
    by (simp add: user_id_sample_record)
  have h5: "registered (initial_subscriptions(2 \<mapsto> {7})) 2 = {7}"
    by (simp add: registered_def)
  show ?thesis
    using h1 h2 h3 h4 h5 no_notification_without_persistence [OF h1 h2 h3]
    by (simp add: commit_fails_at_def empty_database_def)
qed


text \<open>
  Claim C5 says that after a subscribe a notification delivers the record to the
  connection exactly once. The one notification the program makes is that of
  \<^verbatim>\<open>create_processed_agent_data\<close>, which hands the result object of
  \<^verbatim>\<open>execute\<close> to \<^verbatim>\<open>send_data_to_subscribers\<close>. With connection 7 subscribed
  for user 1 and a batch of one record of user 1: the row is committed,
  \<^verbatim>\<open>json.dumps\<close> raises \<^verbatim>\<open>TypeError\<close> on the result object, the call ends with
  that exception, and connection 7 receives nothing.
\<close>

theorem notification_of_ingested_record_raises:
  "websocket_endpoint_subscribe initial_subscriptions 7 1 = Inr (initial_subscriptions(1 \<mapsto> {7}))
   \<and> create_processed_agent_data no_faults (initial_subscriptions(1 \<mapsto> {7})) empty_database
        [sample_record 1 15000]
       = (Inl TypeError, \<lparr>table = [values_of 1 (sample_record 1 15000)], next_id = 2\<rparr>, [])
   \<and> send_data_to_subscribers ascending dumps_rejects never_fails
        (initial_subscriptions(1 \<mapsto> {7})) 1 (CursorResult 1 (Some 1))
       = (Inl TypeError, initial_subscriptions(1 \<mapsto> {7}), [])
   \<and> delivered_to 7 (snd (snd (create_processed_agent_data no_faults
        (initial_subscriptions(1 \<mapsto> {7})) empty_database [sample_record 1 15000]))) = []"
  by (simp add: create_processed_agent_data_def no_faults_def empty_database_def SessionLocal_def
      execute_insert_def commit_def rollback_def send_data_to_subscribers_def
      initial_subscriptions_def websocket_endpoint_subscribe_def ascending_def dumps_rejects_def
      delivered_to_def user_id_sample_record Let_def)

section \<open>Properties of read, update and delete\<close>

lemma first_filter_None: "n \<notin> c_id ` set rows \<Longrightarrow> first (filter (\<lambda>r. c_id r = n) rows) = None"
  by (induction rows) auto

lemma first_filter_Some:
  "n \<in> c_id ` set rows
     \<Longrightarrow> \<exists>row. first (filter (\<lambda>r. c_id r = n) rows) = Some row \<and> row \<in> set rows \<and> c_id row = n"
  by (induction rows) auto

lemma read_absent:
  "n \<notin> c_id ` set (table db) \<Longrightarrow> read_processed_agent_data db n = Inl (HTTPException 404)"
  by (simp add: read_processed_agent_data_def SessionLocal_def execute_select_def first_filter_None)

lemma read_present:
  "n \<in> c_id ` set (table db)
     \<Longrightarrow> \<exists>row. read_processed_agent_data db n = Inr row \<and> row \<in> set (table db) \<and> c_id row = n"
  using first_filter_Some [of n "table db"]
  by (auto simp: read_processed_agent_data_def SessionLocal_def execute_select_def)

lemma update_never_raises:
  "\<exists>row. fst (update_processed_agent_data db n item) = Inr row"
  by (simp add: update_processed_agent_data_def execute_update_def truthy_def Let_def)

lemma update_absent:
  assumes "n \<notin> c_id ` set (table db)"
  shows "update_processed_agent_data db n item = (Inr None, db)"
proof -
  have same: "map (\<lambda>r. if c_id r = n then values_of (c_id r) item else r) (table db) = table db"
    using assms by (intro map_idI) auto
  show ?thesis
    using assms
    by (simp add: update_processed_agent_data_def execute_update_def truthy_def Let_def
        SessionLocal_def commit_def execute_select_def same first_filter_None)
qed

lemma c_id_values_of: "c_id (values_of n item) = n"
  by (simp add: values_of_def)

lemma first_filter_updated:
  "n \<in> c_id ` set rows
     \<Longrightarrow> first (filter (\<lambda>r. c_id r = n)
           (map (\<lambda>r. if c_id r = n then values_of (c_id r) item else r) rows))
         = Some (values_of n item)"
  by (induction rows) (auto simp: c_id_values_of)

lemma update_present:
  "n \<in> c_id ` set (table db)
     \<Longrightarrow> fst (update_processed_agent_data db n item) = Inr (Some (values_of n item))"
  by (simp add: update_processed_agent_data_def execute_update_def truthy_def Let_def
      SessionLocal_def commit_def execute_select_def first_filter_updated)

lemma delete_never_raises:
  "\<exists>row. fst (delete_processed_agent_data db n) = Inr row"
  by (simp add: delete_processed_agent_data_def execute_delete_def truthy_def Let_def)

lemma delete_absent:
  assumes "n \<notin> c_id ` set (table db)"
  shows "delete_processed_agent_data db n = (Inr None, db)"
proof -
  have same: "filter (\<lambda>r. c_id r \<noteq> n) (table db) = table db"
    using assms by (auto simp: filter_id_conv)
  show ?thesis
    using assms
    by (simp add: delete_processed_agent_data_def execute_delete_def truthy_def Let_def
        SessionLocal_def commit_def execute_select_def same first_filter_None)
qed

lemma delete_present:
  assumes "n \<in> c_id ` set (table db)"
  shows "\<exists>row. fst (delete_processed_agent_data db n) = Inr (Some row)
           \<and> row \<in> set (table db) \<and> c_id row = n
           \<and> n \<notin> c_id ` set (table (snd (delete_processed_agent_data db n)))"
  using first_filter_Some [OF assms]
  by (auto simp: delete_processed_agent_data_def execute_delete_def truthy_def Let_def
      SessionLocal_def commit_def execute_select_def)

text \<open>
  Claim C7 says that read, update and delete report not-found for an absent identifier.
  On a table without a row of identifier 1, the read raises the 404 exception, while the
  update and the delete return \<^verbatim>\<open>None\<close> and raise nothing: their test
  \<^verbatim>\<open>not result\<close> looks at the object \<^verbatim>\<open>execute\<close> returned, which is always
  true. (For a present identifier, \<open>update_present\<close> and \<open>delete_present\<close> give what
  the claim says.)
\<close>

theorem update_delete_absent_not_reported:
  "read_processed_agent_data empty_database 1 = Inl (HTTPException 404)
   \<and> update_processed_agent_data empty_database 1 (sample_record 1 15000) = (Inr None, empty_database)
   \<and> delete_processed_agent_data empty_database 1 = (Inr None, empty_database)"
  by (simp add: read_processed_agent_data_def update_processed_agent_data_def
      delete_processed_agent_data_def execute_update_def execute_delete_def execute_select_def
      truthy_def Let_def SessionLocal_def commit_def empty_database_def)

end
